theory Spec2Isabelle
  imports Main "HOL-Library.Word" "HOL-Library.Sublist"
begin

section \<open>JavaScript strings\<close>

text \<open>
  A JavaScript string is a sequence of UTF-16 code units. The regular expression of
  \<^verbatim>\<open>prependToChangelog\<close> has no \<^verbatim>\<open>u\<close> flag, so it matches code unit by code unit, and
  \<^verbatim>\<open>split\<close>, \<^verbatim>\<open>slice\<close>, \<^verbatim>\<open>trim\<close> and \<^verbatim>\<open>length\<close> count code units too. The bullet of the
  attribution line (U+2022) is one code unit.
\<close>

type_synonym jschar = "16 word"
type_synonym jsstring = "jschar list"

definition js :: "string \<Rightarrow> jsstring" where
  \<comment> \<open>an ASCII literal of the source as code units\<close>
  "js s = map (\<lambda>c. of_nat (of_char c)) s"

abbreviation LF :: jschar where "LF \<equiv> 0x0A"
abbreviation SPACE :: jschar where "SPACE \<equiv> 0x20"
abbreviation HASH :: jschar where "HASH \<equiv> 0x23"
abbreviation GT :: jschar where "GT \<equiv> 0x3E"
abbreviation BULLET :: jschar where "BULLET \<equiv> 0x2022"

definition isLineTerminator :: "jschar \<Rightarrow> bool" where
  \<comment> \<open>ECMAScript LineTerminator: LF, CR, LS, PS; what \<^verbatim>\<open>.\<close> refuses\<close>
  "isLineTerminator c \<longleftrightarrow> c = 0x0A \<or> c = 0x0D \<or> c = 0x2028 \<or> c = 0x2029"

definition isWhiteSpace :: "jschar \<Rightarrow> bool" where
  \<comment> \<open>what \<^verbatim>\<open>String.prototype.trim\<close> strips: ECMAScript WhiteSpace and LineTerminator\<close>
  "isWhiteSpace c \<longleftrightarrow>
     c = 0x09 \<or> c = 0x0B \<or> c = 0x0C \<or> c = 0x20 \<or> c = 0xA0 \<or> c = 0x1680 \<or>
     (0x2000 \<le> c \<and> c \<le> 0x200A) \<or> c = 0x202F \<or> c = 0x205F \<or> c = 0x3000 \<or>
     c = 0xFEFF \<or> isLineTerminator c"

definition trim :: "jsstring \<Rightarrow> jsstring" where
  "trim s = rev (dropWhile isWhiteSpace (rev (dropWhile isWhiteSpace s)))"

fun join :: "jsstring \<Rightarrow> jsstring list \<Rightarrow> jsstring" where
  \<comment> \<open>\<^verbatim>\<open>xs.join(sep)\<close>\<close>
  "join sep [] = []"
| "join sep [x] = x"
| "join sep (x # y # ys) = x @ sep @ join sep (y # ys)"

function split_js :: "jsstring \<Rightarrow> jsstring \<Rightarrow> jsstring list" where
  \<comment> \<open>\<^verbatim>\<open>s.split(sep)\<close> for a string separator: scan from the left, cut at each occurrence\<close>
  "split_js sep s =
     (if sep = [] then map (\<lambda>c. [c]) s
      else if s = [] then [[]]
      else if prefix sep s then [] # split_js sep (drop (length sep) s)
      else (let r = split_js sep (tl s) in (hd s # hd r) # tl r))"
  by pat_completeness auto
termination
  by (relation "measure (\<lambda>(sep, s). length s)") auto

declare split_js.simps [simp del]

definition Set_spread :: "'a list \<Rightarrow> 'a list" where
  \<comment> \<open>\<^verbatim>\<open>[...new Set(xs)]\<close>: each value once, in the order of first insertion\<close>
  "Set_spread xs = fold (\<lambda>x acc. if x \<in> set acc then acc else acc @ [x]) xs []"

section \<open>The regular expression of the header\<close>

text \<open>
  \<^verbatim>\<open>/^# .+\n+(?:(?:>.+\n+)|(?:[^#].+\n+))*/\<close> is built from single-character atoms,
  concatenation, alternation and the greedy quantifiers \<^verbatim>\<open>*\<close> and \<^verbatim>\<open>+\<close>. A backtracking
  matcher tries the alternatives of every choice in a fixed order and takes the first
  overall success; \<open>matches r s\<close> lists, in that order, what is left of \<open>s\<close> after each
  way of matching \<open>r\<close> at its start. As in ECMAScript's RepeatMatcher, an iteration of
  \<^verbatim>\<open>*\<close> that consumes nothing is refused.
\<close>

datatype atom = Lit jschar | NotLit jschar | Dot

fun accepts :: "atom \<Rightarrow> jschar \<Rightarrow> bool" where
  "accepts (Lit c) x \<longleftrightarrow> x = c"
| "accepts (NotLit c) x \<longleftrightarrow> x \<noteq> c"
| "accepts Dot x \<longleftrightarrow> \<not> isLineTerminator x"

datatype regex = Atom atom | Seq regex regex | Alt regex regex | Star regex

fun matches :: "regex \<Rightarrow> jsstring \<Rightarrow> jsstring list" where
  "matches (Atom a) s = (case s of [] \<Rightarrow> [] | x # xs \<Rightarrow> if accepts a x then [xs] else [])"
| "matches (Seq r1 r2) s = concat (map (matches r2) (matches r1 s))"
| "matches (Alt r1 r2) s = matches r1 s @ matches r2 s"
| "matches (Star r) s =
     concat (map (\<lambda>t. if length t < length s then matches (Star r) t else []) (matches r s))
     @ [s]"

definition Plus :: "regex \<Rightarrow> regex" where
  \<comment> \<open>\<^verbatim>\<open>r+\<close>: one \<open>r\<close>, then \<^verbatim>\<open>r*\<close>\<close>
  "Plus r = Seq r (Star r)"

definition exec_at_start :: "regex \<Rightarrow> jsstring \<Rightarrow> jsstring option" where
  \<comment> \<open>\<^verbatim>\<open>s.match(/^r/)\<close>: the matched text (element 0 of the result), or null\<close>
  "exec_at_start r s =
     (case matches r s of [] \<Rightarrow> None | t # _ \<Rightarrow> Some (take (length s - length t) s))"

definition preambleLine :: regex where
  \<comment> \<open>\<^verbatim>\<open>(?:>.+\n+)|(?:[^#].+\n+)\<close>\<close>
  "preambleLine =
     Alt (Seq (Seq (Atom (Lit GT)) (Plus (Atom Dot))) (Plus (Atom (Lit LF))))
         (Seq (Seq (Atom (NotLit HASH)) (Plus (Atom Dot))) (Plus (Atom (Lit LF))))"

definition headerRegex :: regex where
  \<comment> \<open>\<^verbatim>\<open># .+\n+(?:...)*\<close>, anchored at the start by \<^verbatim>\<open>^\<close>\<close>
  "headerRegex =
     Seq (Seq (Seq (Seq (Atom (Lit HASH)) (Atom (Lit SPACE))) (Plus (Atom Dot)))
              (Plus (Atom (Lit LF))))
         (Star preambleLine)"

section \<open>The document merger\<close>

definition defaultHeader :: jsstring where
  "defaultHeader =
     js ''# Changelog\<newline>\<newline>All notable changes to this project.\<newline>\<newline>---\<newline>\<newline>''"

definition newContent :: "jsstring \<Rightarrow> jsstring \<Rightarrow> jsstring" where
  \<comment> \<open>the three branches of \<^verbatim>\<open>prependToChangelog\<close>, in the order of the source\<close>
  "newContent entry existingContent =
     (case exec_at_start headerRegex existingContent of
        Some header \<Rightarrow> header @ entry @ drop (length header) existingContent
      | None \<Rightarrow>
          if trim existingContent = [] then defaultHeader @ entry
          else entry @ existingContent)"

text \<open>
  The file system as the merger sees it: the text of each file that exists, by path, and
  the log of every \<^verbatim>\<open>writeFileSync\<close> call (path and text written), oldest first.
\<close>

record disk =
  files :: "jsstring \<rightharpoonup> jsstring"
  writes :: "(jsstring \<times> jsstring) list"

definition prependToChangelog :: "jsstring \<Rightarrow> jsstring \<Rightarrow> disk \<Rightarrow> disk" where
  \<comment> \<open>reads the file when it exists, writes the merged text back; every
      \<^verbatim>\<open>writeFileSync\<close> is recorded in \<open>writes\<close>\<close>
  "prependToChangelog entry changelogPath d =
     (let existingContent = (case files d changelogPath of None \<Rightarrow> [] | Some c \<Rightarrow> c);
          content = newContent entry existingContent
      in d\<lparr>files := (files d)(changelogPath \<mapsto> content),
            writes := writes d @ [(changelogPath, content)]\<rparr>)"


section \<open>Errors, snapshots and details\<close>

datatype error =
  Error jsstring \<comment> \<open>\<^verbatim>\<open>throw new Error(message)\<close>\<close>
| RangeError jsstring \<comment> \<open>what \<^verbatim>\<open>toISOString\<close> throws on an invalid date\<close>
| Rejected jsstring \<comment> \<open>whatever a request of the hosting API or of the model endpoint rejects with\<close>

record PRData =
  pr_number :: int
  pr_title :: jsstring
  pr_body :: "jsstring option"
  pr_user :: "jsstring option" \<comment> \<open>\<^verbatim>\<open>user.login\<close>; \<open>None\<close> when \<^verbatim>\<open>user\<close> is null\<close>
  pr_merged_at :: "jsstring option"
  pr_labels :: "jsstring list option" \<comment> \<open>the \<^verbatim>\<open>name\<close> of each label\<close>

record PullRequestDetails =
  title :: jsstring
  body :: jsstring
  author :: jsstring
  reviewers :: "jsstring list"
  commits :: "jsstring list"
  filesChanged :: "jsstring list"
  labels :: "jsstring list"
  mergedAt :: jsstring

record AIConfig =
  apiKey :: jsstring
  baseURL :: jsstring
  model :: jsstring

record commitData =
  message :: jsstring \<comment> \<open>\<^verbatim>\<open>c.commit.message\<close>\<close>

record reviewData =
  state :: jsstring
  login :: "jsstring option" \<comment> \<open>\<^verbatim>\<open>r.user?.login\<close>\<close>

record fileData =
  filename :: jsstring

text \<open>
  What the run reads from outside: the three list requests of the hosting API, the chat
  completion request (with the fixed system message, temperature 0.7 and 500 tokens; its
  result is, per choice, the content of the message when there is one), and the two uses
  of \<^verbatim>\<open>Date\<close>.
\<close>

record ports =
  listCommits :: "int \<Rightarrow> error + commitData list"
  listReviews :: "int \<Rightarrow> error + reviewData list"
  listFiles :: "int \<Rightarrow> error + fileData list"
  createCompletion :: "AIConfig \<Rightarrow> jsstring \<Rightarrow> error + jsstring option list"
  nowISOString :: jsstring \<comment> \<open>\<^verbatim>\<open>new Date().toISOString()\<close>\<close>
  toISOString :: "jsstring \<Rightarrow> error + jsstring" \<comment> \<open>\<^verbatim>\<open>new Date(s).toISOString()\<close>\<close>

definition or_else :: "jsstring \<Rightarrow> jsstring \<Rightarrow> jsstring" where
  \<comment> \<open>\<^verbatim>\<open>s || d\<close> on strings: the empty string is falsy\<close>
  "or_else s d = (if s = [] then d else s)"

definition opt_or_else :: "jsstring option \<Rightarrow> jsstring \<Rightarrow> jsstring" where
  \<comment> \<open>\<^verbatim>\<open>s || d\<close> when \<open>s\<close> may be null or undefined\<close>
  "opt_or_else s d = (case s of None \<Rightarrow> d | Some v \<Rightarrow> or_else v d)"

definition truthy :: "jsstring option \<Rightarrow> bool" where
  \<comment> \<open>\<^verbatim>\<open>!!login\<close>\<close>
  "truthy l \<longleftrightarrow> (case l of None \<Rightarrow> False | Some v \<Rightarrow> v \<noteq> [])"

section \<open>The detail aggregator\<close>

definition approvedReviewers :: "reviewData list \<Rightarrow> jsstring list" where
  \<comment> \<open>the local \<^verbatim>\<open>reviewers\<close> of \<^verbatim>\<open>fetchPRDetails\<close>\<close>
  "approvedReviewers reviews =
     Set_spread (map the (filter truthy (map login
       (filter (\<lambda>r. state r = js ''APPROVED'') reviews))))"

definition fetchPRDetails :: "ports \<Rightarrow> PRData \<Rightarrow> error + PullRequestDetails" where
  "fetchPRDetails io pr =
     (case listCommits io (pr_number pr) of Inl e \<Rightarrow> Inl e | Inr commitList \<Rightarrow>
      case listReviews io (pr_number pr) of Inl e \<Rightarrow> Inl e | Inr reviewList \<Rightarrow>
      case listFiles io (pr_number pr) of Inl e \<Rightarrow> Inl e | Inr fileList \<Rightarrow>
        Inr \<lparr>title = pr_title pr,
             body = opt_or_else (pr_body pr) [],
             author = opt_or_else (pr_user pr) (js ''unknown''),
             reviewers = approvedReviewers reviewList,
             commits = map message commitList,
             filesChanged = map filename fileList,
             labels = (case pr_labels pr of None \<Rightarrow> [] | Some ls \<Rightarrow> ls),
             mergedAt = opt_or_else (pr_merged_at pr) (nowISOString io)\<rparr>)"

section \<open>The prompt builder\<close>

definition commitSummary :: "PullRequestDetails \<Rightarrow> jsstring" where
  "commitSummary details =
     join [LF] (map (\<lambda>c. js ''- '' @ hd (split_js [LF] c)) (take 5 (commits details)))"

definition filesSummary :: "PullRequestDetails \<Rightarrow> jsstring" where
  "filesSummary details = join (js '', '') (take 10 (filesChanged details))"

definition buildPrompt :: "PullRequestDetails \<Rightarrow> jsstring" where
  "buildPrompt details =
     js ''Generate a changelog entry for this merged pull request:\<newline>\<newline>**Title:** ''
     @ title details
     @ js ''\<newline>\<newline>**Description:**\<newline>''
     @ or_else (body details) (js ''No description provided.'')
     @ js ''\<newline>\<newline>**Commits:**\<newline>''
     @ commitSummary details
     @ js ''\<newline>\<newline>**Files changed:** ''
     @ filesSummary details
     @ js ''\<newline>\<newline>**Labels:** ''
     @ or_else (join (js '', '') (labels details)) (js ''none'')
     @ js ''\<newline>\<newline>Write a user-friendly changelog entry with:\<newline>1. A short, descriptive title (with appropriate emoji)\<newline>2. 1-2 sentences explaining the change in plain language\<newline>3. Optional: 2-3 bullet points if there are multiple aspects\<newline>\<newline>Focus on the user impact, not implementation details.''"

section \<open>The entry formatter\<close>

definition bulletSep :: jsstring where
  \<comment> \<open>a space, U+2022, a space\<close>
  "bulletSep = [SPACE, BULLET, SPACE]"

definition contributors :: "PullRequestDetails \<Rightarrow> jsstring" where
  "contributors details =
     join bulletSep (map (\<lambda>u. js ''@'' @ u) (author details # reviewers details))"

definition attribution :: "PullRequestDetails \<Rightarrow> jsstring" where
  "attribution details =
     (if length (reviewers details) > 0
      then js ''**Shipped by** '' @ hd (split_js bulletSep (contributors details)) @ bulletSep
           @ js ''**Reviewed by** '' @ join (js '', '') (map (\<lambda>r. js ''@'' @ r) (reviewers details))
      else js ''**Shipped by** @'' @ author details)"

definition formatEntry :: "ports \<Rightarrow> jsstring \<Rightarrow> PullRequestDetails \<Rightarrow> error + jsstring" where
  "formatEntry io aiContent details =
     (case toISOString io (mergedAt details) of
        Inl e \<Rightarrow> Inl e
      | Inr isoDate \<Rightarrow>
          let date = hd (split_js (js ''T'') isoDate)
          in Inr (js ''## '' @ date @ js ''\<newline>\<newline>'' @ trim aiContent @ js ''\<newline>\<newline>''
                  @ attribution details @ js ''\<newline>\<newline>---\<newline>\<newline>''))"

section \<open>The content generator and the pipeline\<close>

definition firstContent :: "jsstring option list \<Rightarrow> jsstring option" where
  \<comment> \<open>\<^verbatim>\<open>response.choices[0]?.message?.content\<close>\<close>
  "firstContent choices = (case choices of [] \<Rightarrow> None | c # _ \<Rightarrow> c)"

definition generateWithAI :: "ports \<Rightarrow> PullRequestDetails \<Rightarrow> AIConfig \<Rightarrow> error + jsstring" where
  "generateWithAI io details aiConfig =
     (let prompt = buildPrompt details
      in case createCompletion io aiConfig prompt of
           Inl e \<Rightarrow> Inl e
         | Inr choices \<Rightarrow>
             let content = firstContent choices
             in if \<not> truthy content then Inl (Error (js ''No response from OpenAI''))
                else formatEntry io (the content) details)"

definition generateEntry ::
    "ports \<Rightarrow> PRData \<Rightarrow> AIConfig \<Rightarrow> jsstring \<Rightarrow> disk \<Rightarrow> (error + jsstring) \<times> disk" where
  "generateEntry io pr aiConfig changelogPath d =
     (case fetchPRDetails io pr of
        Inl e \<Rightarrow> (Inl e, d)
      | Inr details \<Rightarrow>
          (case generateWithAI io details aiConfig of
             Inl e \<Rightarrow> (Inl e, d)
           | Inr entry \<Rightarrow> (Inr entry, prependToChangelog entry changelogPath d)))"

section \<open>Configuration\<close>

definition unknownProvider :: "jsstring \<Rightarrow> jsstring" where
  "unknownProvider provider =
     js ''Unknown provider: '' @ provider @ js ''. Use '' @ [0x27] @ js ''openai'' @ [0x27]
     @ js '', '' @ [0x27] @ js ''openrouter'' @ [0x27] @ js '', or a custom URL.''"

definition getAIConfig :: "(jsstring \<Rightarrow> bool \<Rightarrow> error + jsstring) \<Rightarrow> error + AIConfig" where
  \<comment> \<open>\<open>getInput name required\<close> is \<^verbatim>\<open>core.getInput(name, {required})\<close>\<close>
  "getAIConfig getInput =
     (case getInput (js ''api-key'') True of Inl e \<Rightarrow> Inl e | Inr key \<Rightarrow>
      case getInput (js ''provider'') False of Inl e \<Rightarrow> Inl e | Inr p \<Rightarrow>
      case getInput (js ''model'') False of Inl e \<Rightarrow> Inl e | Inr m \<Rightarrow>
        let provider = or_else p (js ''openai'');
            model = or_else m (js ''gpt-4o-mini'')
        in if provider = js ''openai''
             then Inr \<lparr>apiKey = key, baseURL = js ''https://api.openai.com/v1'', model = model\<rparr>
           else if provider = js ''openrouter''
             then Inr \<lparr>apiKey = key, baseURL = js ''https://openrouter.ai/api/v1'', model = model\<rparr>
           else if prefix (js ''http'') provider
             then Inr \<lparr>apiKey = key, baseURL = provider, model = model\<rparr>
           else Inl (Error (unknownProvider provider)))"

section \<open>Example inputs\<close>

text \<open>
  The inputs at which the theorems below are instantiated: the snapshot of the spec's
  end-to-end example (change request 42), a hosting API that answers with one commit of
  two lines, three reviews (two by bob, one by carol) in a given state and one file, and a
  \<^verbatim>\<open>Date\<close> that knows the snapshot's merge time.
\<close>

definition exampleSnapshot :: "jsstring option \<Rightarrow> PRData" where
  "exampleSnapshot user =
     \<lparr>pr_number = 42, pr_title = js ''Add dark mode'', pr_body = None, pr_user = user,
      pr_merged_at = Some (js ''2024-03-01T00:00:00Z''), pr_labels = None\<rparr>"

definition exampleReviews :: "jsstring \<Rightarrow> reviewData list" where
  "exampleReviews st =
     [\<lparr>state = st, login = Some (js ''bob'')\<rparr>,
      \<lparr>state = st, login = Some (js ''bob'')\<rparr>,
      \<lparr>state = st, login = Some (js ''carol'')\<rparr>]"

definition examplePorts ::
    "(error + commitData list) \<Rightarrow> jsstring \<Rightarrow> (error + jsstring option list) \<Rightarrow> ports" where
  "examplePorts commitsResult st completion =
     \<lparr>listCommits = (\<lambda>_. commitsResult),
      listReviews = (\<lambda>_. Inr (exampleReviews st)),
      listFiles = (\<lambda>_. Inr [\<lparr>filename = js ''src/theme.ts''\<rparr>]),
      createCompletion = (\<lambda>_ _. completion),
      nowISOString = js ''2024-03-02T10:00:00.000Z'',
      toISOString = (\<lambda>s. if s = js ''2024-03-01T00:00:00Z''
                         then Inr (js ''2024-03-01T00:00:00.000Z'')
                         else Inl (RangeError (js ''Invalid time value'')))\<rparr>"

definition exampleCommits :: "commitData list" where
  "exampleCommits = [\<lparr>message = js ''Add toggle\<newline>\<newline>Stored per user.''\<rparr>]"

definition exampleDetails :: "jsstring \<Rightarrow> jsstring list \<Rightarrow> PullRequestDetails" where
  "exampleDetails who rs =
     \<lparr>title = js ''Add dark mode'', body = [], author = who, reviewers = rs,
      commits = [js ''Add toggle\<newline>\<newline>Stored per user.''], filesChanged = [js ''src/theme.ts''],
      labels = [], mergedAt = js ''2024-03-01T00:00:00Z''\<rparr>"

definition sevenCommits :: PullRequestDetails where
  "sevenCommits =
     \<lparr>title = js ''Add dark mode'', body = [], author = js ''alice'', reviewers = [],
      commits = [js ''one\<newline>more'', js ''two'', js ''three'', js ''four'', js ''five'', js ''six'',
                 js ''seven''],
      filesChanged = [js ''src/theme.ts''], labels = [],
      mergedAt = js ''2024-03-01T00:00:00Z''\<rparr>"

definition exampleDisk :: "jsstring option \<Rightarrow> disk" where
  "exampleDisk doc =
     \<lparr>files = (case doc of None \<Rightarrow> Map.empty | Some text \<Rightarrow> [js ''CHANGELOG.md'' \<mapsto> text]),
      writes = []\<rparr>"

section \<open>The header block, line by line\<close>

text \<open>
  A second description of what the regular expression takes, as a reader of the document
  would give it. A line "has text and ends" when at least one character that is no line
  terminator is followed by a line feed. The heading line is \<^verbatim>\<open># \<close>, then such text; a
  preamble line is one character other than \<^verbatim>\<open>#\<close>, then such text. Each line owns the
  line feeds that follow it, so blank lines stay with the line above them. A separator
  line \<^verbatim>\<open>---\<close> is a preamble line like any other.
\<close>

definition textThenNewline :: "jsstring \<Rightarrow> bool" where
  "textThenNewline s \<longleftrightarrow>
     takeWhile (\<lambda>c. \<not> isLineTerminator c) s \<noteq> [] \<and>
     (case dropWhile (\<lambda>c. \<not> isLineTerminator c) s of [] \<Rightarrow> False | c # _ \<Rightarrow> c = LF)"

definition lineEnd :: "jsstring \<Rightarrow> jsstring" where
  \<comment> \<open>the text of the line and the line feeds after it\<close>
  "lineEnd s =
     takeWhile (\<lambda>c. \<not> isLineTerminator c) s
     @ takeWhile (\<lambda>c. c = LF) (dropWhile (\<lambda>c. \<not> isLineTerminator c) s)"

definition afterLine :: "jsstring \<Rightarrow> jsstring" where
  \<comment> \<open>what follows them\<close>
  "afterLine s = dropWhile (\<lambda>c. c = LF) (dropWhile (\<lambda>c. \<not> isLineTerminator c) s)"

function skipPreamble :: "jsstring \<Rightarrow> jsstring" where
  \<comment> \<open>the document from the first line that is no preamble line\<close>
  "skipPreamble [] = []"
| "skipPreamble (c # s) =
     (if c \<noteq> HASH \<and> textThenNewline s then skipPreamble (afterLine s) else c # s)"
  by pat_completeness auto
termination
  by (relation "measure length")
    (auto simp: afterLine_def
      intro!: le_imp_less_Suc order_trans[OF length_dropWhile_le length_dropWhile_le])

function preambleBlock :: "jsstring \<Rightarrow> jsstring" where
  \<comment> \<open>the preamble lines at the start of the text\<close>
  "preambleBlock [] = []"
| "preambleBlock (c # s) =
     (if c \<noteq> HASH \<and> textThenNewline s then c # lineEnd s @ preambleBlock (afterLine s)
      else [])"
  by pat_completeness auto
termination
  by (relation "measure length")
    (auto simp: afterLine_def
      intro!: le_imp_less_Suc order_trans[OF length_dropWhile_le length_dropWhile_le])

definition startsWithHeading :: "jsstring \<Rightarrow> bool" where
  \<comment> \<open>\<^verbatim>\<open># \<close>, a title of at least one character, a line feed\<close>
  "startsWithHeading doc \<longleftrightarrow>
     (case doc of h # sp # s \<Rightarrow> h = HASH \<and> sp = SPACE \<and> textThenNewline s | _ \<Rightarrow> False)"

definition headerBlock :: "jsstring \<Rightarrow> jsstring" where
  \<comment> \<open>the heading line and the preamble lines after it\<close>
  "headerBlock doc =
     take 2 doc @ lineEnd (drop 2 doc) @ preambleBlock (afterLine (drop 2 doc))"

text \<open>
  For the proofs: \<open>backs p s\<close> lists what a greedy \<^verbatim>\<open>p*\<close> leaves of \<open>s\<close>, longest match
  first, and \<open>lineRest\<close> what \<^verbatim>\<open>.+\n+\<close> leaves.
\<close>

fun backs :: "('a \<Rightarrow> bool) \<Rightarrow> 'a list \<Rightarrow> 'a list list" where
  "backs p [] = [[]]"
| "backs p (x # xs) = (if p x then backs p xs @ [x # xs] else [x # xs])"

definition lineRest :: "jsstring \<Rightarrow> jsstring list" where
  "lineRest s =
     (if textThenNewline s
      then backs (\<lambda>c. c = LF) (tl (dropWhile (\<lambda>c. \<not> isLineTerminator c) s))
      else [])"

section \<open>What the regular expression matches\<close>

lemma length_afterLine: "length (afterLine s) \<le> length s"
  unfolding afterLine_def
  by (meson length_dropWhile_le order_trans)

lemma backs_not_Nil [simp]: "backs p xs \<noteq> []"
  by (induction xs) auto

lemma hd_backs [simp]: "hd (backs p xs) = dropWhile p xs"
  by (induction xs) auto

lemma matches_Star_Atom: "matches (Star (Atom a)) s = backs (accepts a) s"
  by (induction s) auto

lemma matches_Plus_Atom:
  "matches (Plus (Atom a)) s =
     (case s of [] \<Rightarrow> [] | x # xs \<Rightarrow> if accepts a x then backs (accepts a) xs else [])"
  by (cases s) (auto simp: Plus_def matches_Star_Atom simp del: matches.simps(4))

lemma concat_map_backs:
  assumes "\<And>x xs. p x \<Longrightarrow> f (x # xs) = []"
  shows "concat (map f (backs p xs)) = f (dropWhile p xs)"
  using assms by (induction xs) auto



lemma concat_map_concat:
  "concat (map f (concat xss)) = concat (map (\<lambda>xs. concat (map f xs)) xss)"
  by (induction xss) auto

lemma seq_assoc: "matches (Seq (Seq a b) c) s = matches (Seq a (Seq b c)) s"
proof -
  have "matches (Seq b c) = (\<lambda>x. concat (map (matches c) (matches b x)))"
    by (rule ext) simp
  then show ?thesis by (simp add: concat_map_concat comp_def)
qed

lemma accepts_Dot: "accepts Dot = (\<lambda>c. \<not> isLineTerminator c)"
  by (rule ext) simp

lemma accepts_LF: "accepts (Lit LF) = (\<lambda>c. c = LF)"
  by (rule ext) simp


lemma plus_LF_after_dot: "(\<lambda>c. \<not> isLineTerminator c) x \<Longrightarrow> matches (Plus (Atom (Lit LF))) (x # xs) = []"
  by (auto simp: matches_Plus_Atom isLineTerminator_def)

lemma plus_LF_cases:
  "matches (Plus (Atom (Lit LF))) r =
     (if (case r of [] \<Rightarrow> False | c # _ \<Rightarrow> c = LF) then backs (\<lambda>c. c = LF) (tl r) else [])"
  by (cases r) (simp_all add: matches_Plus_Atom accepts_LF)

lemma dot_then_newlines:
  "matches (Seq (Plus (Atom Dot)) (Plus (Atom (Lit LF)))) s = lineRest s"
proof (cases s)
  case Nil
  then show ?thesis by (simp add: lineRest_def textThenNewline_def matches_Plus_Atom)
next
  case (Cons x xs)
  show ?thesis
  proof (cases "isLineTerminator x")
    case True
    with Cons show ?thesis by (simp add: lineRest_def textThenNewline_def matches_Plus_Atom)
  next
    case False
    have "matches (Seq (Plus (Atom Dot)) (Plus (Atom (Lit LF)))) s
        = concat (map (matches (Plus (Atom (Lit LF)))) (backs (\<lambda>c. \<not> isLineTerminator c) xs))"
      using Cons False by (simp add: matches_Plus_Atom accepts_Dot)
    also have "\<dots> = matches (Plus (Atom (Lit LF))) (dropWhile (\<lambda>c. \<not> isLineTerminator c) xs)"
      by (rule concat_map_backs) (rule plus_LF_after_dot)
    also have "\<dots> = lineRest s"
      using Cons False
      by (simp add: plus_LF_cases lineRest_def textThenNewline_def)
    finally show ?thesis .
  qed
qed

lemma atom_line:
  "matches (Seq (Seq (Atom a) (Plus (Atom Dot))) (Plus (Atom (Lit LF)))) s =
     (case s of [] \<Rightarrow> [] | c # s1 \<Rightarrow> if accepts a c then lineRest s1 else [])"
  by (simp only: seq_assoc) (auto simp: dot_then_newlines simp del: matches.simps(2) split: list.splits simp: matches.simps(2)[of "Atom a"])

lemma lineRest_Nil: "lineRest s = [] \<longleftrightarrow> \<not> textThenNewline s"
  by (simp add: lineRest_def)

lemma hd_lineRest: "textThenNewline s \<Longrightarrow> hd (lineRest s) = afterLine s"
  by (auto simp: lineRest_def afterLine_def textThenNewline_def split: list.splits)

lemma preambleLine_Nil:
  "matches preambleLine s = [] \<longleftrightarrow> \<not> (\<exists>c s1. s = c # s1 \<and> c \<noteq> HASH \<and> textThenNewline s1)"
  by (auto simp: preambleLine_def atom_line lineRest_Nil simp del: matches.simps(2) split: list.splits)

lemma hd_preambleLine:
  "c \<noteq> HASH \<Longrightarrow> textThenNewline s1 \<Longrightarrow> hd (matches preambleLine (c # s1)) = afterLine s1"
  by (auto simp: preambleLine_def atom_line lineRest_Nil hd_lineRest simp del: matches.simps(2))

lemma Star_not_Nil: "matches (Star r) s \<noteq> []"
  by simp

lemma hd_Star_stop: "matches r s = [] \<Longrightarrow> hd (matches (Star r) s) = s"
  by simp

lemma hd_Star_step:
  assumes "matches r s \<noteq> []" "length (hd (matches r s)) < length s"
  shows "hd (matches (Star r) s) = hd (matches (Star r) (hd (matches r s)))"
proof -
  obtain t ts where ts: "matches r s = t # ts" using assms(1) by (cases "matches r s") auto
  with assms(2) have "length t < length s" by simp
  then have "matches (Star r) s = matches (Star r) t @
      concat (map (\<lambda>t. if length t < length s then matches (Star r) t else []) ts) @ [s]"
    using ts by (subst matches.simps(4)) simp
  then show ?thesis using ts Star_not_Nil[of r t] by (simp del: matches.simps)
qed

lemma hd_Star_preambleLine: "hd (matches (Star preambleLine) s) = skipPreamble s"
proof (induction s rule: skipPreamble.induct)
  case 1
  have "matches preambleLine [] = []" by (simp add: preambleLine_Nil)
  then show ?case by (simp add: hd_Star_stop del: matches.simps)
next
  case (2 c s)
  show ?case
  proof (cases "c \<noteq> HASH \<and> textThenNewline s")
    case True
    then have ne: "matches preambleLine (c # s) \<noteq> []" by (simp add: preambleLine_Nil)
    have h: "hd (matches preambleLine (c # s)) = afterLine s" using True by (simp add: hd_preambleLine)
    have "length (afterLine s) < length (c # s)" using length_afterLine[of s] by simp
    with ne h have "hd (matches (Star preambleLine) (c # s)) = hd (matches (Star preambleLine) (afterLine s))"
      using hd_Star_step[of preambleLine "c # s"] by simp
    with 2 True show ?thesis by simp
  next
    case False
    then have "matches preambleLine (c # s) = []" by (simp add: preambleLine_Nil)
    then have "hd (matches (Star preambleLine) (c # s)) = c # s"
      by (simp add: hd_Star_stop del: matches.simps)
    moreover have "skipPreamble (c # s) = c # s" using False by auto
    ultimately show ?thesis by simp
  qed
qed


lemma lineEnd_afterLine: "lineEnd s @ afterLine s = s"
  by (simp add: lineEnd_def afterLine_def)

lemma preamble_split: "preambleBlock s @ skipPreamble s = s"
  by (induction s rule: skipPreamble.induct) (auto simp: lineEnd_afterLine)


lemma headerBlock_split:
  "startsWithHeading doc \<Longrightarrow> headerBlock doc @ skipPreamble (afterLine (drop 2 doc)) = doc"
  by (auto simp: startsWithHeading_def headerBlock_def preamble_split lineEnd_afterLine
      split: list.splits)

lemma seq_atom:
  "matches (Seq (Atom a) r) s =
     (case s of [] \<Rightarrow> [] | c # t \<Rightarrow> if accepts a c then matches r t else [])"
  by (cases s) simp_all

lemma matches_heading:
  "matches (Seq (Seq (Seq (Atom (Lit HASH)) (Atom (Lit SPACE))) (Plus (Atom Dot)))
        (Plus (Atom (Lit LF)))) doc =
     (if startsWithHeading doc then lineRest (drop 2 doc) else [])"
  by (simp only: seq_assoc seq_atom dot_then_newlines)
    (auto simp: startsWithHeading_def lineRest_Nil split: list.splits)

lemma hd_concat_map:
  "xs \<noteq> [] \<Longrightarrow> f (hd xs) \<noteq> [] \<Longrightarrow> hd (concat (map f xs)) = hd (f (hd xs))"
  by (cases xs) auto

lemma matches_headerRegex_Nil:
  "\<not> startsWithHeading doc \<Longrightarrow> matches headerRegex doc = []"
  unfolding headerRegex_def by (subst matches.simps(2)) (simp only: matches_heading if_False list.map concat.simps)

lemma matches_headerRegex_hd:
  assumes "startsWithHeading doc"
  shows "matches headerRegex doc \<noteq> []"
    and "hd (matches headerRegex doc) = skipPreamble (afterLine (drop 2 doc))"
proof -
  let ?H = "Seq (Seq (Seq (Atom (Lit HASH)) (Atom (Lit SPACE))) (Plus (Atom Dot)))
        (Plus (Atom (Lit LF)))"
  have tn: "textThenNewline (drop 2 doc)"
    using assms by (auto simp: startsWithHeading_def split: list.splits)
  have H: "matches ?H doc = lineRest (drop 2 doc)" using assms by (simp only: matches_heading if_True)
  have ne: "matches ?H doc \<noteq> []" using tn H by (simp add: lineRest_Nil)
  have hdH: "hd (matches ?H doc) = afterLine (drop 2 doc)" using tn H by (simp add: hd_lineRest)
  have eq: "matches headerRegex doc = concat (map (matches (Star preambleLine)) (matches ?H doc))"
    unfolding headerRegex_def by (subst matches.simps(2)) (rule refl)
  show "matches headerRegex doc \<noteq> []"
    unfolding eq using ne Star_not_Nil by (cases "matches ?H doc") (auto simp del: matches.simps)
  show "hd (matches headerRegex doc) = skipPreamble (afterLine (drop 2 doc))"
    unfolding eq using hd_concat_map[OF ne, of "matches (Star preambleLine)"] Star_not_Nil hdH
    by (simp add: hd_Star_preambleLine del: matches.simps)
qed

lemma exec_headerRegex:
  "exec_at_start headerRegex doc = (if startsWithHeading doc then Some (headerBlock doc) else None)"
proof (cases "startsWithHeading doc")
  case False
  then show ?thesis by (simp add: exec_at_start_def matches_headerRegex_Nil)
next
  case True
  let ?t = "skipPreamble (afterLine (drop 2 doc))"
  obtain ts where ts: "matches headerRegex doc = ?t # ts"
    using matches_headerRegex_hd[OF True] by (cases "matches headerRegex doc") auto
  have "take (length doc - length ?t) doc = take (length (headerBlock doc)) (headerBlock doc @ ?t)"
    using headerBlock_split[OF True]
    by (metis add_diff_cancel_right' length_append)
  then have "take (length doc - length ?t) doc = headerBlock doc" by simp
  with ts True show ?thesis by (simp add: exec_at_start_def)
qed

lemma trim_Nil_iff: "trim s = [] \<longleftrightarrow> (\<forall>c\<in>set s. isWhiteSpace c)"
proof
  assume "trim s = []"
  then have "\<forall>c\<in>set (dropWhile isWhiteSpace s). isWhiteSpace c"
    by (simp add: trim_def dropWhile_eq_Nil_conv)
  then have "dropWhile isWhiteSpace s = []"
    using hd_dropWhile[of isWhiteSpace s] hd_in_set by blast
  then show "\<forall>c\<in>set s. isWhiteSpace c" by (simp add: dropWhile_eq_Nil_conv)
next
  assume "\<forall>c\<in>set s. isWhiteSpace c"
  then have dw: "dropWhile isWhiteSpace s = []" by (induction s) auto
  show "trim s = []" unfolding trim_def dw by simp
qed

lemma heading_not_blank: "startsWithHeading doc \<Longrightarrow> \<not> (\<forall>c\<in>set doc. isWhiteSpace c)"
  by (auto simp: startsWithHeading_def isWhiteSpace_def isLineTerminator_def split: list.splits)



lemma files_prependToChangelog:
  "files (prependToChangelog entry path d) path =
     Some (newContent entry (case files d path of None \<Rightarrow> [] | Some c \<Rightarrow> c))"
  by (simp add: prependToChangelog_def Let_def)


lemma newContent_blank:
  assumes "\<forall>c\<in>set doc. isWhiteSpace c"
  shows "newContent entry doc = defaultHeader @ entry"
proof -
  have "\<not> startsWithHeading doc" using assms heading_not_blank by blast
  moreover have "trim doc = []" using assms by (simp only: trim_Nil_iff)
  ultimately show ?thesis by (simp add: newContent_def exec_headerRegex)
qed

lemma newContent_other:
  assumes "\<not> startsWithHeading doc" and "\<not> (\<forall>c\<in>set doc. isWhiteSpace c)"
  shows "newContent entry doc = entry @ doc"
proof -
  have "trim doc \<noteq> []" using assms(2) by (simp only: trim_Nil_iff not_False_eq_True)
  with assms(1) show ?thesis by (simp add: newContent_def exec_headerRegex)
qed


section \<open>The claims about the document merger\<close>

text \<open>
  C6. When the changelog file does not exist, or holds only white space (what
  \<^verbatim>\<open>trim\<close> strips), the text written is the fixed default header (the title
  \<^verbatim>\<open># Changelog\<close>, the one-line description, the separator \<^verbatim>\<open>---\<close>) followed immediately
  by the new entry.
\<close>

theorem prependToChangelog_empty_or_absent:
  assumes "files d path = None \<or>
           (\<exists>doc. files d path = Some doc \<and> (\<forall>c\<in>set doc. isWhiteSpace c))"
  shows "files (prependToChangelog entry path d) path =
           Some (js ''# Changelog\<newline>\<newline>All notable changes to this project.\<newline>\<newline>---\<newline>\<newline>'' @ entry)"
proof -
  let ?doc = "case files d path of None \<Rightarrow> [] | Some c \<Rightarrow> c"
  have ws: "\<forall>c\<in>set ?doc. isWhiteSpace c" using assms by auto
  then have "newContent entry ?doc = defaultHeader @ entry" by (rule newContent_blank)
  then show ?thesis by (simp add: files_prependToChangelog defaultHeader_def)
qed

theorem prependToChangelog_empty_or_absent_witness:
  "files (prependToChangelog (js ''entry'') (js ''CHANGELOG.md'')
       \<lparr>files = Map.empty, writes = []\<rparr>) (js ''CHANGELOG.md'') =
     Some (js ''# Changelog\<newline>\<newline>All notable changes to this project.\<newline>\<newline>---\<newline>\<newline>entry'')
   \<and> files (prependToChangelog (js ''entry'') (js ''CHANGELOG.md'')
       \<lparr>files = [js ''CHANGELOG.md'' \<mapsto> js '' \<newline>''], writes = []\<rparr>) (js ''CHANGELOG.md'') =
     Some (js ''# Changelog\<newline>\<newline>All notable changes to this project.\<newline>\<newline>---\<newline>\<newline>entry'')"
proof -
  have ws: "\<forall>c\<in>set (js '' \<newline>''). isWhiteSpace c"
    by (simp add: js_def isWhiteSpace_def isLineTerminator_def)
  show ?thesis
    using prependToChangelog_empty_or_absent
            [of "\<lparr>files = Map.empty, writes = []\<rparr>" "js ''CHANGELOG.md''" "js ''entry''"]
          prependToChangelog_empty_or_absent
            [of "\<lparr>files = [js ''CHANGELOG.md'' \<mapsto> js '' \<newline>''], writes = []\<rparr>"
                "js ''CHANGELOG.md''" "js ''entry''"] ws
    by (simp add: js_def)
qed

text \<open>
  C7. For a document that is not empty in the sense of the second branch (it holds a
  character that is not white space) and that does not start with a heading the merger
  recognises, the text written is the new entry followed by the whole prior text.
\<close>

theorem prependToChangelog_no_header:
  assumes "files d path = Some doc"
    and "\<not> (\<forall>c\<in>set doc. isWhiteSpace c)"
    and "\<not> startsWithHeading doc"
  shows "files (prependToChangelog entry path d) path = Some (entry @ doc)"
proof -
  have "newContent entry doc = entry @ doc"
    using assms(3,2) by (rule newContent_other)
  with assms(1) show ?thesis by (simp add: files_prependToChangelog)
qed

theorem prependToChangelog_no_header_witness:
  "files (prependToChangelog (js ''new\<newline>'') (js ''CHANGELOG.md'')
       \<lparr>files = [js ''CHANGELOG.md'' \<mapsto> js ''old notes\<newline>''], writes = []\<rparr>) (js ''CHANGELOG.md'') =
     Some (js ''new\<newline>old notes\<newline>'')"
proof -
  have a: "\<not> (\<forall>c\<in>set (js ''old notes\<newline>''). isWhiteSpace c)"
    by (simp add: js_def isWhiteSpace_def isLineTerminator_def)
  have b: "\<not> startsWithHeading (js ''old notes\<newline>'')"
    by (simp add: js_def startsWithHeading_def)
  show ?thesis
    using prependToChangelog_no_header
            [of "\<lparr>files = [js ''CHANGELOG.md'' \<mapsto> js ''old notes\<newline>''], writes = []\<rparr>"
                "js ''CHANGELOG.md''" "js ''old notes\<newline>''" "js ''new\<newline>''", OF _ a b]
    by (simp add: js_def)
qed





end
